theory Spec2Isabelle
  imports Main "HOL-Library.Word" "HOL-Library.Multiset"
begin

section \<open>Python values and exceptions\<close>

text \<open>
  The exceptions the program can raise. The first two are raised as Python \<open>IOError\<close>
  (by \<open>FakeMemoryUnit._get_address\<close> and by \<open>FakeMemory._find_mu\<close>, each carrying the
  offending address in its message), the next two as \<open>ValueError\<close> (by \<open>bytearray\<close> for a
  value outside \<open>range(0, 256)\<close>, and by \<open>overlap_error\<close> in \<open>FakeMemory.add_range\<close>),
  \<open>UnsupportedRecordType\<close> is the \<open>NotImplementedError\<close> of \<open>cmd_write_srec\<close> with the
  record type of its message. \<open>IndexError\<close> and \<open>TypeError\<close> are raised by \<open>bytearray\<close>
  indexing. \<open>ExternalError\<close> stands for whatever the collaborators outside the repository
  (\<open>srec_util\<close>, the builtin \<open>int\<close>) raise.
\<close>

datatype error =
    OutOfRange int
  | NoSuchAddress int
  | ValueOutOfDomain
  | RangeConflict
  | UnsupportedRecordType string
  | IndexError
  | TypeError
  | ExternalError string

fun is_IOError :: "error \<Rightarrow> bool" where
  "is_IOError (OutOfRange a) = True"
| "is_IOError (NoSuchAddress a) = True"
| "is_IOError e = False"

fun is_ValueError :: "error \<Rightarrow> bool" where
  "is_ValueError ValueOutOfDomain = True"
| "is_ValueError RangeConflict = True"
| "is_ValueError e = False"

text \<open>The Python values that are written to, and returned by, the memory.\<close>

datatype pyval = PyNone | PyInt int | PyList "int list"

subsection \<open>Indexing a \<open>bytearray\<close>\<close>

text \<open>
  \<open>b[i]\<close>: a negative index counts from the end, an index outside the array raises
  \<open>IndexError\<close>.
\<close>

definition py_index :: "'a list \<Rightarrow> int \<Rightarrow> error + nat" where
  "py_index xs i =
     (let n = int (length xs); j = (if i < 0 then i + n else i)
      in if 0 \<le> j \<and> j < n then Inr (nat j) else Inl IndexError)"

text \<open>A bound of the slice \<open>b[i:j]\<close>, clipped to the array as Python does.\<close>

definition slice_bound :: "nat \<Rightarrow> int \<Rightarrow> nat" where
  "slice_bound n i = (if i < 0 then nat (max 0 (i + int n)) else min (nat i) n)"

text \<open>
  \<open>b[i:j] = vs\<close>: the slice, clipped to the array, is replaced by \<open>vs\<close>, whatever the
  length of \<open>vs\<close>; the array grows or shrinks accordingly.
\<close>

definition py_setslice :: "'a list \<Rightarrow> int \<Rightarrow> int \<Rightarrow> 'a list \<Rightarrow> 'a list" where
  "py_setslice xs i j vs =
     (let lo = slice_bound (length xs) i; hi = max lo (slice_bound (length xs) j)
      in take lo xs @ vs @ drop hi xs)"

text \<open>The value of a byte: an integer of \<open>range(0, 256)\<close>, else \<open>ValueError\<close>.\<close>

definition getbytevalue :: "int \<Rightarrow> error + 8 word" where
  "getbytevalue v = (if 0 \<le> v \<and> v < 256 then Inr (word_of_int v) else Inl ValueOutOfDomain)"

text \<open>\<open>bytearray(vs)\<close> of a list of integers: the first value out of range raises.\<close>

fun bytearray_of :: "int list \<Rightarrow> error + 8 word list" where
  "bytearray_of [] = Inr []"
| "bytearray_of (v # vs) =
     (case getbytevalue v of
        Inl e \<Rightarrow> Inl e
      | Inr b \<Rightarrow> (case bytearray_of vs of Inl e \<Rightarrow> Inl e | Inr bs \<Rightarrow> Inr (b # bs)))"

section \<open>helpers.py\<close>

record CustomRange =
  start :: int
  stop :: int

definition contains :: "CustomRange \<Rightarrow> int \<Rightarrow> bool" where
  "contains r item = (start r \<le> item \<and> item \<le> stop r)"

text \<open>
  \<open>chunker(seq, size)\<close>: the slices \<open>seq[pos:pos + size]\<close> for \<open>pos\<close> in
  \<open>xrange(0, len(seq), size)\<close>. The program calls it with size 2 only; \<open>xrange\<close> raises
  for a step of 0, where this definition yields no chunk.
\<close>

definition chunker :: "'a list \<Rightarrow> nat \<Rightarrow> 'a list list" where
  "chunker seq sz =
     map (\<lambda>k. take sz (drop (k * sz) seq)) [0 ..< (length seq + sz - 1) div sz]"

section \<open>FakeMemoryUnit\<close>

record FakeMemoryUnit =
  addr_start :: int
  length_mu :: int
  data :: "8 word list"
  range_mu :: CustomRange
  description :: string

definition start_mu :: "FakeMemoryUnit \<Rightarrow> int" where
  "start_mu u = addr_start u"

definition end_mu :: "FakeMemoryUnit \<Rightarrow> int" where
  "end_mu u = start_mu u + length_mu u - 1"

text \<open>
  \<open>clear\<close>: \<open>bytearray(self.length * '\x00')\<close>; a string repeated a negative number of
  times is empty.
\<close>

definition clear :: "FakeMemoryUnit \<Rightarrow> FakeMemoryUnit" where
  "clear u = u\<lparr>data := replicate (nat (length_mu u)) 0\<rparr>"

text \<open>\<open>__init__\<close>: the range is computed once, from the start and the length given.\<close>

definition FakeMemoryUnit_init :: "int \<Rightarrow> int \<Rightarrow> string \<Rightarrow> FakeMemoryUnit" where
  "FakeMemoryUnit_init a l d =
     (let u0 = \<lparr>addr_start = a, length_mu = l, data = [],
                range_mu = \<lparr>start = 0, stop = 0\<rparr>, description = []\<rparr>;
          u1 = clear u0;
          u2 = u1\<lparr>range_mu := \<lparr>start = start_mu u1, stop = end_mu u1\<rparr>\<rparr>
      in u2\<lparr>description := d\<rparr>)"

definition get_address :: "FakeMemoryUnit \<Rightarrow> int \<Rightarrow> error + int" where
  "get_address u address =
     (if contains (range_mu u) address then Inr (address - start_mu u)
      else Inl (OutOfRange address))"

text \<open>
  \<open>read\<close>: only an \<open>IOError\<close> is caught, and turned into 0 when \<open>no_error\<close> is set.
  Reading does not change the unit.
\<close>

definition read :: "FakeMemoryUnit \<Rightarrow> int \<Rightarrow> bool \<Rightarrow> error + int" where
  "read u address no_error =
     (let r = (case get_address u address of
                 Inl e \<Rightarrow> Inl e
               | Inr i \<Rightarrow> (case py_index (data u) i of
                            Inl e \<Rightarrow> Inl e
                          | Inr j \<Rightarrow> Inr (uint (data u ! j))))
      in case r of
           Inl e \<Rightarrow> (if is_IOError e \<and> no_error then Inr 0 else Inl e)
         | Inr v \<Rightarrow> Inr v)"

text \<open>The list comprehension of \<open>read32\<close>: the first byte that raises ends it.\<close>

fun read_each :: "FakeMemoryUnit \<Rightarrow> int list \<Rightarrow> bool \<Rightarrow> error + int list" where
  "read_each u [] no_error = Inr []"
| "read_each u (x # xs) no_error =
     (case read u x no_error of
        Inl e \<Rightarrow> Inl e
      | Inr v \<Rightarrow> (case read_each u xs no_error of Inl e \<Rightarrow> Inl e | Inr vs \<Rightarrow> Inr (v # vs)))"

definition read32 :: "FakeMemoryUnit \<Rightarrow> int \<Rightarrow> bool \<Rightarrow> error + int list" where
  "read32 u address no_error = read_each u [address .. address + 31] no_error"

text \<open>
  \<open>write\<close> (the name is an Isabelle keyword): the address alone is translated; a list
  is stored by the slice assignment
  \<open>self._data[address:address+len(value)] = value\<close>, anything else by
  \<open>self._data[address] = value\<close> (the index is checked before the value). An \<open>IOError\<close>
  or a \<open>ValueError\<close> is swallowed when \<open>no_error\<close> is set. The result is the outcome and
  the unit afterwards.
\<close>

definition write_mu ::
  "FakeMemoryUnit \<Rightarrow> int \<Rightarrow> pyval \<Rightarrow> bool \<Rightarrow> (error + unit) \<times> FakeMemoryUnit" where
  "write_mu u address val no_error =
     (let r = (case get_address u address of
                 Inl e \<Rightarrow> Inl e
               | Inr a \<Rightarrow>
                   (case val of
                      PyList vs \<Rightarrow>
                        (case bytearray_of vs of
                           Inl e \<Rightarrow> Inl e
                         | Inr bs \<Rightarrow> Inr (py_setslice (data u) a (a + int (length vs)) bs))
                    | PyInt v \<Rightarrow>
                        (case py_index (data u) a of
                           Inl e \<Rightarrow> Inl e
                         | Inr j \<Rightarrow> (case getbytevalue v of
                                      Inl e \<Rightarrow> Inl e
                                    | Inr b \<Rightarrow> Inr ((data u)[j := b])))
                    | PyNone \<Rightarrow>
                        (case py_index (data u) a of
                           Inl e \<Rightarrow> Inl e
                         | Inr j \<Rightarrow> Inl TypeError)))
      in case r of
           Inr d \<Rightarrow> (Inr (), u\<lparr>data := d\<rparr>)
         | Inl e \<Rightarrow> (if (is_IOError e \<or> is_ValueError e) \<and> no_error then (Inr (), u)
                    else (Inl e, u)))"

section \<open>FakeMemory\<close>

text \<open>The memory is its list \<open>_mu\<close> of units.\<close>

type_synonym FakeMemory = "FakeMemoryUnit list"

text \<open>
  The loop of \<open>add_range\<close> that looks for the position: \<open>Inl\<close> when \<open>overlap_error\<close>
  is called, else the value of \<open>pos_idx\<close> when the loop ends or breaks.
\<close>

fun find_position :: "FakeMemoryUnit \<Rightarrow> FakeMemoryUnit list \<Rightarrow> nat \<Rightarrow> error + nat" where
  "find_position new_mu [] pos_idx = Inr pos_idx"
| "find_position new_mu (fmu # rest) pos_idx =
     (if contains (range_mu fmu) (start_mu new_mu) \<or> contains (range_mu fmu) (end_mu new_mu)
      then Inl RangeConflict
      else if start_mu new_mu < start_mu fmu then Inr pos_idx
      else find_position new_mu rest (pos_idx + 1))"

text \<open>
  \<open>add_range\<close>: after the loop, the unit at \<open>pos_idx + 1\<close> (if there is one) is compared
  with the end of the new unit, and the new unit is inserted at \<open>pos_idx\<close>.
\<close>

definition add_range ::
  "FakeMemory \<Rightarrow> int \<Rightarrow> int \<Rightarrow> string \<Rightarrow> (error + unit) \<times> FakeMemory" where
  "add_range mu a len d =
     (let new_mu = FakeMemoryUnit_init a len d
      in case find_position new_mu mu 0 of
           Inl e \<Rightarrow> (Inl e, mu)
         | Inr pos_idx \<Rightarrow>
             (if pos_idx + 1 < length mu \<and> end_mu new_mu \<ge> start_mu (mu ! (pos_idx + 1))
              then (Inl RangeConflict, mu)
              else (Inr (), take pos_idx mu @ [new_mu] @ drop pos_idx mu)))"

text \<open>\<open>_find_mu\<close>: the position of the first unit whose range contains the address.\<close>

fun find_mu_idx :: "FakeMemoryUnit list \<Rightarrow> int \<Rightarrow> nat option" where
  "find_mu_idx [] address = None"
| "find_mu_idx (mu # rest) address =
     (if contains (range_mu mu) address then Some 0
      else map_option Suc (find_mu_idx rest address))"

definition find_mu :: "FakeMemory \<Rightarrow> int \<Rightarrow> error + nat" where
  "find_mu mu address =
     (case find_mu_idx mu address of None \<Rightarrow> Inl (NoSuchAddress address) | Some i \<Rightarrow> Inr i)"

text \<open>
  \<open>_read_write_method\<close>, bound to the names \<open>read\<close>, \<open>read32\<close> and \<open>write\<close>. An
  \<open>IOError\<close> is raised again unless \<open>no_error\<close> is set; when it is set the method ends
  without a \<open>return\<close>, so its value is \<open>None\<close>.
\<close>

datatype method_name = Read | Read32 | Write

definition read_write_method ::
  "FakeMemory \<Rightarrow> method_name \<Rightarrow> int \<Rightarrow> pyval \<Rightarrow> bool \<Rightarrow> (error + pyval) \<times> FakeMemory" where
  "read_write_method mu method address val no_error =
     (let (r, mu') =
        (case find_mu mu address of
           Inl e \<Rightarrow> (Inl e, mu)
         | Inr i \<Rightarrow>
             (case method of
                Read \<Rightarrow> (map_sum id PyInt (read (mu ! i) address no_error), mu)
              | Read32 \<Rightarrow> (map_sum id PyList (read32 (mu ! i) address no_error), mu)
              | Write \<Rightarrow>
                  (case write_mu (mu ! i) address val no_error of
                     (w, u') \<Rightarrow> (map_sum id (\<lambda>_. PyNone) w, mu[i := u']))))
      in case r of
           Inl e \<Rightarrow> (if is_IOError e \<and> no_error then (Inr PyNone, mu') else (Inl e, mu'))
         | Inr v \<Rightarrow> (Inr v, mu'))"

definition clear_all :: "FakeMemory \<Rightarrow> FakeMemory" where
  "clear_all mu = map clear mu"

section \<open>FakeMemoryItf\<close>

text \<open>\<open>str.strip()\<close>: leading and trailing whitespace removed.\<close>

definition is_space :: "char \<Rightarrow> bool" where
  "is_space c = (c \<in> set [CHR '' '', CHR 0x09, CHR 0x0A, CHR 0x0B, CHR 0x0C, CHR 0x0D])"

definition strip :: "string \<Rightarrow> string" where
  "strip s = rev (dropWhile is_space (rev (dropWhile is_space s)))"

text \<open>
  The interface holds a memory with the range of the standard flash. The logger is not
  modelled.
\<close>

definition FakeMemoryItf_init :: "(error + unit) \<times> FakeMemory" where
  "FakeMemoryItf_init = add_range [] 0x10000000 (1024 * 1024) ''Flash''"

definition cmd_erase_memory :: "FakeMemory \<Rightarrow> bool \<times> FakeMemory" where
  "cmd_erase_memory m = (True, clear_all m)"

text \<open>The list comprehension \<open>[int(x, 16) for x in chunks]\<close>.\<close>

fun int_each :: "(string \<Rightarrow> error + int) \<Rightarrow> string list \<Rightarrow> error + int list" where
  "int_each int16 [] = Inr []"
| "int_each int16 (x # xs) =
     (case int16 x of
        Inl e \<Rightarrow> Inl e
      | Inr v \<Rightarrow> (case int_each int16 xs of Inl e \<Rightarrow> Inl e | Inr vs \<Rightarrow> Inr (v # vs)))"

text \<open>
  \<open>cmd_write_srec\<close>. The module \<open>srec_util\<close> is not part of the repository: its
  functions \<open>parse_srec\<close> (which yields the five fields of a record, or raises) and
  \<open>validate_srec_checksum\<close> are parameters, as is \<open>int16\<close>, which stands for the builtin
  \<open>int(x, 16)\<close>. The line is parsed and its address decoded before the checksum is
  validated.
\<close>

definition cmd_write_srec ::
  "(string \<Rightarrow> error + (string \<times> string \<times> string \<times> string \<times> string)) \<Rightarrow>
   (string \<Rightarrow> bool) \<Rightarrow> (string \<Rightarrow> error + int) \<Rightarrow>
   FakeMemory \<Rightarrow> string \<Rightarrow> (error + bool) \<times> FakeMemory" where
  "cmd_write_srec parse_srec validate_srec_checksum int16 m srec =
     (case parse_srec srec of
        Inl e \<Rightarrow> (Inl e, m)
      | Inr (rtype, rlen, addr, dat, chk) \<Rightarrow>
          (case int16 addr of
             Inl e \<Rightarrow> (Inl e, m)
           | Inr a \<Rightarrow>
               (if \<not> validate_srec_checksum (strip srec) then (Inr False, m)
                else if rtype = ''S0'' then (Inr True, m)
                else if rtype = ''S3'' then
                  (case int_each int16 (chunker dat 2) of
                     Inl e \<Rightarrow> (Inl e, m)
                   | Inr vs \<Rightarrow>
                       (case read_write_method m Write a (PyList vs) False of
                          (Inl e, m') \<Rightarrow> (Inl e, m')
                        | (Inr v, m') \<Rightarrow> (Inr True, m')))
                else if rtype = ''S7'' then (Inr True, m)
                else (Inl (UnsupportedRecordType rtype), m))))"

section \<open>Notions used by the properties\<close>

text \<open>
  What construction establishes and every operation of a unit keeps: the range is the
  one of the start and the length, and the buffer holds at least \<open>length\<close> bytes.
\<close>

definition unit_inv :: "FakeMemoryUnit \<Rightarrow> bool" where
  "unit_inv u =
     (range_mu u = \<lparr>start = start_mu u, stop = end_mu u\<rparr> \<and>
      nat (length_mu u) \<le> length (data u))"

text \<open>
  A \<open>(start, length)\<close> pair stands for the inclusive interval \<open>[start, start+length-1]\<close>;
  two pairs intersect when their intervals share an address.
\<close>

definition intersects :: "int \<times> int \<Rightarrow> int \<times> int \<Rightarrow> bool" where
  "intersects p q = (max (fst p) (fst q) \<le> min (fst p + snd p - 1) (fst q + snd q - 1))"

fun pairwise_disjoint :: "(int \<times> int) list \<Rightarrow> bool" where
  "pairwise_disjoint [] = True"
| "pairwise_disjoint (p # ps) = ((\<forall>q\<in>set ps. \<not> intersects p q) \<and> pairwise_disjoint ps)"

text \<open>
  A client that calls \<open>add_range\<close> for each pair of a list in turn, with the default
  description; the first call that raises ends it.
\<close>

fun add_ranges :: "FakeMemory \<Rightarrow> (int \<times> int) list \<Rightarrow> (error + unit) \<times> FakeMemory" where
  "add_ranges mu [] = (Inr (), mu)"
| "add_ranges mu ((s, l) # ps) =
     (case add_range mu s l [] of
        (Inl e, mu') \<Rightarrow> (Inl e, mu')
      | (Inr ok, mu') \<Rightarrow> add_ranges mu' ps)"

definition interval_of :: "FakeMemoryUnit \<Rightarrow> int \<times> int" where
  "interval_of u = (start_mu u, length_mu u)"

text \<open>
  The memory that insertions of disjoint ranges of positive length maintain: each
  unit ends before every later one starts.
\<close>

definition mem_inv :: "FakeMemory \<Rightarrow> bool" where
  "mem_inv mu =
     (sorted_wrt (\<lambda>u v. end_mu u < start_mu v) mu \<and>
      (\<forall>u\<in>set mu. 0 < length_mu u \<and> unit_inv u))"

section \<open>Properties of a unit\<close>

lemma unit_inv_init: "unit_inv (FakeMemoryUnit_init a l d)"
  by (simp add: unit_inv_def FakeMemoryUnit_init_def clear_def start_mu_def end_mu_def)

lemma unit_inv_clear: "unit_inv u \<Longrightarrow> unit_inv (clear u)"
  by (simp add: unit_inv_def clear_def start_mu_def end_mu_def)

lemma get_address_iff:
  "unit_inv u \<Longrightarrow> get_address u a =
     (if start_mu u \<le> a \<and> a \<le> start_mu u + length_mu u - 1 then Inr (a - start_mu u)
      else Inl (OutOfRange a))"
  by (simp add: unit_inv_def get_address_def contains_def end_mu_def)

lemma py_index_nat: "0 \<le> i \<Longrightarrow> nat i < length xs \<Longrightarrow> py_index xs i = Inr (nat i)"
  by (auto simp: py_index_def Let_def)

lemma read_in_range:
  assumes "unit_inv u" "start_mu u \<le> a" "a \<le> end_mu u"
  shows "read u a ne = Inr (uint (data u ! nat (a - start_mu u)))"
proof -
  have g: "get_address u a = Inr (a - start_mu u)"
    using assms by (simp add: get_address_iff end_mu_def)
  have "nat (a - start_mu u) < length (data u)"
    using assms by (simp add: unit_inv_def end_mu_def) linarith
  then have "py_index (data u) (a - start_mu u) = Inr (nat (a - start_mu u))"
    using assms(2) by (simp add: py_index_nat)
  with g show ?thesis by (simp add: read_def)
qed

lemma read_out_of_range:
  assumes "unit_inv u" "a < start_mu u \<or> end_mu u < a"
  shows "read u a ne = (if ne then Inr 0 else Inl (OutOfRange a))"
  using assms by (auto simp: get_address_iff end_mu_def read_def)

text \<open>
  C9. For a unit spanning \<open>[S, S+L-1]\<close> (\<open>L\<close> positive), \<open>_get_address\<close> returns
  \<open>address - S\<close> exactly when \<open>S \<le> address \<le> S+L-1\<close> and raises the out-of-range
  \<open>IOError\<close> otherwise; reading at \<open>S-1\<close> and at \<open>S+L\<close> raises it, or returns 0 when
  \<open>no_error\<close> is set, and reading at \<open>S\<close> and at \<open>S+L-1\<close> returns the first and the
  last byte of the buffer.
\<close>

theorem get_address_and_boundary_reads:
  assumes "unit_inv u" and "0 < length_mu u"
  shows "get_address u a =
           (if start_mu u \<le> a \<and> a \<le> start_mu u + length_mu u - 1 then Inr (a - start_mu u)
            else Inl (OutOfRange a))
       \<and> read u (start_mu u - 1) False = Inl (OutOfRange (start_mu u - 1))
       \<and> read u (start_mu u + length_mu u) False = Inl (OutOfRange (start_mu u + length_mu u))
       \<and> read u (start_mu u - 1) True = Inr 0
       \<and> read u (start_mu u + length_mu u) True = Inr 0
       \<and> read u (start_mu u) ne = Inr (uint (data u ! 0))
       \<and> read u (start_mu u + length_mu u - 1) ne = Inr (uint (data u ! nat (length_mu u - 1)))"
proof -
  have 1: "read u (start_mu u - 1) False = Inl (OutOfRange (start_mu u - 1))"
    and 2: "read u (start_mu u - 1) True = Inr 0"
    using assms(1) by (simp_all add: read_out_of_range)
  have 3: "read u (start_mu u + length_mu u) False = Inl (OutOfRange (start_mu u + length_mu u))"
    and 4: "read u (start_mu u + length_mu u) True = Inr 0"
    using assms(1) by (simp_all add: read_out_of_range end_mu_def)
  have 5: "read u (start_mu u) ne = Inr (uint (data u ! 0))"
    using read_in_range [OF assms(1), of "start_mu u" ne] assms(2) by (simp add: end_mu_def)
  have 6: "read u (start_mu u + length_mu u - 1) ne = Inr (uint (data u ! nat (length_mu u - 1)))"
    using read_in_range [OF assms(1), of "start_mu u + length_mu u - 1" ne] assms(2)
    by (simp add: end_mu_def)
  from get_address_iff [OF assms(1)] 1 2 3 4 5 6 show ?thesis by simp
qed

theorem get_address_and_boundary_reads_witness:
  "unit_inv (FakeMemoryUnit_init 0x10 4 []) \<and> 0 < length_mu (FakeMemoryUnit_init 0x10 4 [])
   \<and> get_address (FakeMemoryUnit_init 0x10 4 []) 0x12 = Inr 2
   \<and> get_address (FakeMemoryUnit_init 0x10 4 []) 0x14 = Inl (OutOfRange 0x14)
   \<and> read (FakeMemoryUnit_init 0x10 4 []) 0x0F False = Inl (OutOfRange 0x0F)
   \<and> read (FakeMemoryUnit_init 0x10 4 []) 0x14 True = Inr 0
   \<and> read (FakeMemoryUnit_init 0x10 4 []) 0x10 False = Inr 0
   \<and> read (FakeMemoryUnit_init 0x10 4 []) 0x13 False = Inr 0"
proof -
  let ?u = "FakeMemoryUnit_init 0x10 4 []"
  have inv: "unit_inv ?u" by (rule unit_inv_init)
  have pos: "0 < length_mu ?u" by (simp add: FakeMemoryUnit_init_def clear_def Let_def)
  have s: "start_mu ?u = 0x10" "length_mu ?u = 4" "data ?u = [0,0,0,0]"
    by (simp_all add: FakeMemoryUnit_init_def clear_def start_mu_def eval_nat_numeral Let_def)
  from get_address_and_boundary_reads [OF inv pos, of "0x12" False]
    get_address_and_boundary_reads [OF inv pos, of "0x14" False] inv pos
  show ?thesis by (simp add: s)
qed

subsection \<open>Writing to a unit\<close>

lemma slice_bound_le: "slice_bound n i \<le> n"
  unfolding slice_bound_def by (cases "i < 0") simp_all

lemma slice_bound_add: "slice_bound n (i + int k) \<le> slice_bound n i + k"
  unfolding slice_bound_def by (cases "i < 0"; cases "i + int k < 0") simp_all

lemma length_py_setslice_ge:
  assumes "length vs = n"
  shows "length xs \<le> length (py_setslice xs i (i + int n) vs)"
proof -
  define lo where "lo = slice_bound (length xs) i"
  define hi where "hi = max lo (slice_bound (length xs) (i + int n))"
  have "lo \<le> length xs" by (simp add: lo_def slice_bound_le)
  moreover have "hi \<le> lo + n"
    using slice_bound_add [of "length xs" i n] by (simp add: hi_def lo_def)
  moreover have "length (py_setslice xs i (i + int n) vs) = lo + n + (length xs - hi)"
    using assms \<open>lo \<le> length xs\<close> by (simp add: py_setslice_def Let_def lo_def hi_def)
  ultimately show ?thesis by linarith
qed

lemma length_bytearray_of: "bytearray_of vs = Inr bs \<Longrightarrow> length bs = length vs"
  by (induction vs arbitrary: bs) (auto split: sum.splits)

lemma write_unchanged_fields:
  "write_mu u a v ne = (r, u') \<Longrightarrow>
   addr_start u' = addr_start u \<and> length_mu u' = length_mu u \<and> range_mu u' = range_mu u"
  by (auto simp: write_mu_def Let_def split: sum.splits pyval.splits if_splits)

text \<open>Every write, whatever its outcome, keeps the range and leaves at least \<open>length\<close> bytes.\<close>

lemma unit_inv_write:
  assumes "unit_inv u" "write_mu u a v ne = (r, u')"
  shows "unit_inv u'"
proof -
  have f: "addr_start u' = addr_start u" "length_mu u' = length_mu u" "range_mu u' = range_mu u"
    using write_unchanged_fields [OF assms(2)] by simp_all
  have "length (data u) \<le> length (data u')"
    using assms(2)
    by (auto simp: write_mu_def Let_def length_py_setslice_ge dest!: length_bytearray_of
        split: sum.splits pyval.splits if_splits)
  with assms(1) f show ?thesis
    by (simp add: unit_inv_def start_mu_def end_mu_def)
qed

text \<open>A write whose first address is outside the unit raises, or does nothing.\<close>

lemma write_start_out_of_range:
  assumes "unit_inv u" "a < start_mu u \<or> end_mu u < a"
  shows "write_mu u a v ne = (if ne then Inr () else Inl (OutOfRange a), u)"
  using assms by (auto simp: write_mu_def get_address_iff end_mu_def)

text \<open>A list with a value outside \<open>range(0, 256)\<close>, written at an address of the unit, raises
  \<open>ValueError\<close> before the buffer is touched, or does nothing.\<close>

lemma bytearray_of_out_of_domain:
  "\<exists>v\<in>set vs. \<not> (0 \<le> v \<and> v < 256) \<Longrightarrow> bytearray_of vs = Inl ValueOutOfDomain"
  by (induction vs) (auto simp: getbytevalue_def split: sum.splits)

lemma write_value_out_of_domain:
  assumes "unit_inv u" "start_mu u \<le> a" "a \<le> end_mu u"
    and "\<exists>v\<in>set vs. \<not> (0 \<le> v \<and> v < 256)"
  shows "write_mu u a (PyList vs) ne = (if ne then Inr () else Inl ValueOutOfDomain, u)"
proof -
  have "get_address u a = Inr (a - start_mu u)"
    using assms(1-3) by (simp add: get_address_iff end_mu_def)
  then show ?thesis
    using bytearray_of_out_of_domain [OF assms(4)] by (simp add: write_mu_def)
qed

text \<open>
  C2. A write of a byte sequence is claimed to raise the out-of-range \<open>IOError\<close>, and to
  leave the buffer as it is, as soon as one covered address is outside the unit. The
  code translates the first address only: on the unit \<open>[0x10, 0x13]\<close> the write of five
  bytes at \<open>0x12\<close>, which covers \<open>0x14\<close> to \<open>0x16\<close>, succeeds and the slice assignment
  lengthens the buffer to seven bytes.
\<close>

theorem write_past_end_succeeds:
  "write_mu (FakeMemoryUnit_init 0x10 4 []) 0x12 (PyList [1, 2, 3, 4, 5]) False
     = (Inr (), (FakeMemoryUnit_init 0x10 4 [])\<lparr>data := [0, 0, 1, 2, 3, 4, 5]\<rparr>)
   \<and> end_mu (FakeMemoryUnit_init 0x10 4 []) = 0x13"
  by code_simp

text \<open>
  C3. The buffer is claimed to keep the size \<open>length\<close> through every operation. The write
  of two bytes at the last address \<open>0x13\<close> of the unit \<open>[0x10, 0x13]\<close> succeeds and leaves
  a buffer of five bytes in a unit of length four.
\<close>

theorem write_grows_buffer:
  "length (data (FakeMemoryUnit_init 0x10 4 [])) = 4
   \<and> fst (write_mu (FakeMemoryUnit_init 0x10 4 []) 0x13 (PyList [0xAA, 0xBB]) False) = Inr ()
   \<and> length_mu (snd (write_mu (FakeMemoryUnit_init 0x10 4 []) 0x13 (PyList [0xAA, 0xBB]) False)) = 4
   \<and> length (data (snd (write_mu (FakeMemoryUnit_init 0x10 4 []) 0x13 (PyList [0xAA, 0xBB]) False))) = 5"
  by code_simp

subsection \<open>Writing and reading back\<close>

lemma bytearray_of_bytes:
  "\<forall>b\<in>set bs. 0 \<le> b \<and> b < 256 \<Longrightarrow> bytearray_of bs = Inr (map word_of_int bs)"
  by (induction bs) (simp_all add: getbytevalue_def)

lemma uint_byte: "0 \<le> b \<Longrightarrow> b < 256 \<Longrightarrow> uint (word_of_int b :: 8 word) = b"
  by (simp add: uint_word_of_int)

lemma py_setslice_inside:
  assumes "0 \<le> a" "nat a + length vs \<le> length xs"
  shows "py_setslice xs a (a + int (length vs)) vs
           = take (nat a) xs @ vs @ drop (nat a + length vs) xs"
proof -
  have lo: "slice_bound (length xs) a = nat a"
    using assms by (simp add: slice_bound_def)
  have hi: "slice_bound (length xs) (a + int (length vs)) = nat a + length vs"
    using assms by (simp add: slice_bound_def nat_add_distrib)
  show ?thesis by (simp add: py_setslice_def Let_def lo hi)
qed

lemma read_each_map:
  "\<forall>x\<in>set xs. read u x ne = Inr (f x) \<Longrightarrow> read_each u xs ne = Inr (map f xs)"
  by (induction xs) simp_all

lemma write_inside:
  assumes inv: "unit_inv u"
    and bytes: "\<forall>b\<in>set bs. 0 \<le> b \<and> b < 256"
    and lo: "start_mu u \<le> a" and hi: "a \<le> end_mu u"
    and last: "a + int (length bs) - 1 \<le> end_mu u"
  shows "write_mu u a (PyList bs) ne =
           (Inr (), u\<lparr>data := take (nat (a - start_mu u)) (data u) @ map word_of_int bs
                               @ drop (nat (a - start_mu u) + length bs) (data u)\<rparr>)"
proof -
  have g: "get_address u a = Inr (a - start_mu u)"
    using inv lo hi by (simp add: get_address_iff end_mu_def)
  have "nat (a - start_mu u) + length bs \<le> nat (length_mu u)"
    using lo last by (simp add: end_mu_def)
  then have fit: "nat (a - start_mu u) + length bs \<le> length (data u)"
    using inv by (simp add: unit_inv_def)
  have "py_setslice (data u) (a - start_mu u) (a - start_mu u + int (length bs)) (map word_of_int bs)
          = take (nat (a - start_mu u)) (data u) @ map word_of_int bs
              @ drop (nat (a - start_mu u) + length bs) (data u)"
    using py_setslice_inside [of "a - start_mu u" "map word_of_int bs" "data u"] lo fit by simp
  with g bytearray_of_bytes [OF bytes] show ?thesis
    by (simp add: write_mu_def)
qed

text \<open>
  C8. Round trip: when the addresses \<open>a\<close> to \<open>a + N - 1\<close> of a sequence of \<open>N\<close> bytes
  all lie in the unit (\<open>a\<close> itself included), writing the sequence at \<open>a\<close> succeeds and
  reading the \<open>N\<close> addresses from \<open>a\<close> on returns the sequence: byte by byte, as the list
  comprehension of \<open>read32\<close> does, and by \<open>read32\<close> itself when \<open>N\<close> is 32.
\<close>

theorem write_then_read_back:
  assumes inv: "unit_inv u"
    and bytes: "\<forall>b\<in>set bs. 0 \<le> b \<and> b < 256"
    and lo: "start_mu u \<le> a" and hi: "a \<le> end_mu u"
    and last: "a + int (length bs) - 1 \<le> end_mu u"
  shows "\<exists>u'. write_mu u a (PyList bs) ne = (Inr (), u')
           \<and> read_each u' [a .. a + int (length bs) - 1] ne' = Inr bs
           \<and> (\<forall>i < length bs. read u' (a + int i) ne' = Inr (bs ! i))
           \<and> (length bs = 32 \<longrightarrow> read32 u' a ne' = Inr bs)"
proof -
  define k where "k = nat (a - start_mu u)"
  define u' where "u' = u\<lparr>data := take k (data u) @ map word_of_int bs @ drop (k + length bs) (data u)\<rparr>"
  have w: "write_mu u a (PyList bs) ne = (Inr (), u')"
    using write_inside [OF inv bytes lo hi last] by (simp add: u'_def k_def)
  have inv': "unit_inv u'" by (rule unit_inv_write [OF inv w])
  have s': "start_mu u' = start_mu u" "end_mu u' = end_mu u"
    by (simp_all add: u'_def start_mu_def end_mu_def)
  have "k + length bs \<le> nat (length_mu u)"
    using lo last by (simp add: end_mu_def k_def)
  then have fit: "k + length bs \<le> length (data u)"
    using inv by (simp add: unit_inv_def)
  have one: "read u' (a + int i) ne' = Inr (bs ! i)" if "i < length bs" for i
  proof -
    have in_lo: "start_mu u' \<le> a + int i" using lo by (simp add: s')
    have in_hi: "a + int i \<le> end_mu u'" using last that by (simp add: s')
    have idx: "nat (a + int i - start_mu u') = k + i"
      using lo by (simp add: s' k_def nat_add_distrib)
    have "length (take k (data u)) = k" using fit by simp
    then have "data u' ! (k + i) = word_of_int (bs ! i)"
      using that by (simp add: u'_def nth_append)
    moreover have "0 \<le> bs ! i \<and> bs ! i < 256" using bytes that by simp
    ultimately show ?thesis
      using read_in_range [OF inv' in_lo in_hi, of ne'] by (simp add: idx uint_byte)
  qed
  have len: "length [a .. a + int (length bs) - 1] = length bs" by simp
  have nth: "[a .. a + int (length bs) - 1] ! i = a + int i" if "i < length bs" for i
    using that by simp
  have "\<forall>x\<in>set [a .. a + int (length bs) - 1]. read u' x ne' = Inr (bs ! nat (x - a))"
  proof
    fix x assume "x \<in> set [a .. a + int (length bs) - 1]"
    then have "a \<le> x" "x \<le> a + int (length bs) - 1" by simp_all
    then have "nat (x - a) < length bs" "x = a + int (nat (x - a))" by simp_all
    then show "read u' x ne' = Inr (bs ! nat (x - a))" using one by metis
  qed
  then have "read_each u' [a .. a + int (length bs) - 1] ne'
               = Inr (map (\<lambda>x. bs ! nat (x - a)) [a .. a + int (length bs) - 1])"
    by (rule read_each_map)
  moreover have "map (\<lambda>x. bs ! nat (x - a)) [a .. a + int (length bs) - 1] = bs"
    by (rule nth_equalityI) (simp_all add: len)
  ultimately have all: "read_each u' [a .. a + int (length bs) - 1] ne' = Inr bs" by simp
  have "read32 u' a ne' = Inr bs" if "length bs = 32"
  proof -
    have "a + int (length bs) - 1 = a + 31" using that by simp
    with all show ?thesis by (simp only: read32_def)
  qed
  with w all one show ?thesis by blast
qed

theorem write_then_read_back_witness:
  "unit_inv (FakeMemoryUnit_init 0x10 8 [])
   \<and> start_mu (FakeMemoryUnit_init 0x10 8 []) \<le> 0x12
   \<and> 0x12 + int (length [0xAA, 0xBB, 0xCC :: int]) - 1 \<le> end_mu (FakeMemoryUnit_init 0x10 8 [])
   \<and> fst (write_mu (FakeMemoryUnit_init 0x10 8 []) 0x12 (PyList [0xAA, 0xBB, 0xCC]) False) = Inr ()
   \<and> read_each (snd (write_mu (FakeMemoryUnit_init 0x10 8 []) 0x12 (PyList [0xAA, 0xBB, 0xCC]) False))
        [0x12 .. 0x14] False = Inr [0xAA, 0xBB, 0xCC]"
proof -
  let ?u = "FakeMemoryUnit_init 0x10 8 []"
  let ?bs = "[0xAA, 0xBB, 0xCC :: int]"
  have inv: "unit_inv ?u" by (rule unit_inv_init)
  have bytes: "\<forall>b\<in>set ?bs. 0 \<le> b \<and> b < 256" by simp
  have se: "start_mu ?u = 0x10" "end_mu ?u = 0x17"
    by (simp_all add: FakeMemoryUnit_init_def clear_def start_mu_def end_mu_def Let_def)
  have lo: "start_mu ?u \<le> 0x12" and hi: "0x12 \<le> end_mu ?u"
    and last: "0x12 + int (length ?bs) - 1 \<le> end_mu ?u"
    by (simp_all add: se)
  from write_then_read_back [OF inv bytes lo hi last, of False False]
  obtain u' where w: "write_mu ?u 0x12 (PyList ?bs) False = (Inr (), u')"
    and r: "read_each u' [0x12 .. 0x12 + int (length ?bs) - 1] False = Inr ?bs"
    by blast
  have "(0x12 :: int) + int (length ?bs) - 1 = 0x14" by simp
  with r have "read_each u' [0x12 .. 0x14] False = Inr ?bs" by simp
  with w inv lo last show ?thesis by simp
qed

section \<open>Properties of the memory\<close>

text \<open>
  C10. \<open>add_range\<close> does not check that the length is positive: on an empty memory
  \<open>add_range(start, 0)\<close> succeeds and inserts a unit that ends at \<open>start - 1\<close> with an
  empty buffer, and then every read of the memory without \<open>no_error\<close>, at any address,
  raises the \<open>IOError\<close> of \<open>_find_mu\<close>.
\<close>

theorem add_range_zero_length:
  "add_range [] s 0 d = (Inr (), [FakeMemoryUnit_init s 0 d])
   \<and> start_mu (FakeMemoryUnit_init s 0 d) = s
   \<and> end_mu (FakeMemoryUnit_init s 0 d) = start_mu (FakeMemoryUnit_init s 0 d) - 1
   \<and> data (FakeMemoryUnit_init s 0 d) = []
   \<and> (\<forall>a val. read_write_method [FakeMemoryUnit_init s 0 d] Read a val False
                = (Inl (NoSuchAddress a), [FakeMemoryUnit_init s 0 d]))
   \<and> (\<forall>a val. read_write_method [FakeMemoryUnit_init s 0 d] Read32 a val False
                = (Inl (NoSuchAddress a), [FakeMemoryUnit_init s 0 d]))"
  by (auto simp: add_range_def FakeMemoryUnit_init_def clear_def start_mu_def end_mu_def
      read_write_method_def find_mu_def contains_def)

text \<open>
  C1. \<open>add_range\<close> is claimed to raise for every candidate that intersects an existing
  unit, full containment included. The loop tests only whether the start or the end of
  the candidate lies in a unit, and the test after the loop looks at the unit at
  \<open>pos_idx + 1\<close>, not at the one at \<open>pos_idx\<close>: with the unit \<open>[0x10, 0x1F]\<close> in the
  memory, the candidate \<open>[0x00, 0x3F]\<close>, which contains it, is inserted before it.
\<close>

theorem add_range_containing_unit_succeeds:
  "add_range [] 0x10 0x10 [] = (Inr (), [FakeMemoryUnit_init 0x10 0x10 []])
   \<and> add_range [FakeMemoryUnit_init 0x10 0x10 []] 0x00 0x40 []
        = (Inr (), [FakeMemoryUnit_init 0x00 0x40 [], FakeMemoryUnit_init 0x10 0x10 []])
   \<and> start_mu (FakeMemoryUnit_init 0x00 0x40 []) \<le> start_mu (FakeMemoryUnit_init 0x10 0x10 [])
   \<and> end_mu (FakeMemoryUnit_init 0x10 0x10 []) \<le> end_mu (FakeMemoryUnit_init 0x00 0x40 [])"
  by code_simp

subsection \<open>Inserting disjoint ranges\<close>

lemma init_fields:
  "start_mu (FakeMemoryUnit_init s l d) = s"
  "length_mu (FakeMemoryUnit_init s l d) = l"
  "end_mu (FakeMemoryUnit_init s l d) = s + l - 1"
  by (simp_all add: FakeMemoryUnit_init_def clear_def start_mu_def end_mu_def Let_def)

lemma intersects_sym: "intersects p q = intersects q p"
  by (simp add: intersects_def max.commute min.commute)

lemma intersects_self: "0 < snd p \<Longrightarrow> intersects p p"
  by (simp add: intersects_def)

text \<open>What a unit disjoint from a candidate of positive length tells the loop.\<close>

lemma disjoint_unit:
  assumes "unit_inv u" "0 < length_mu u" "0 < length_mu n"
    and "\<not> intersects (interval_of n) (interval_of u)"
  shows "\<not> contains (range_mu u) (start_mu n)" "\<not> contains (range_mu u) (end_mu n)"
    and "start_mu u \<le> start_mu n \<Longrightarrow> end_mu u < start_mu n"
    and "start_mu n < start_mu u \<Longrightarrow> end_mu n < start_mu u"
  using assms
  by (auto simp: unit_inv_def contains_def intersects_def interval_of_def end_mu_def)

lemma find_position_disjoint:
  assumes "\<forall>u\<in>set us. \<not> contains (range_mu u) (start_mu n) \<and> \<not> contains (range_mu u) (end_mu n)"
  shows "find_position n us k = Inr (k + length (takeWhile (\<lambda>u. start_mu u \<le> start_mu n) us))"
  using assms by (induction us arbitrary: k) auto

lemma sorted_starts:
  assumes "mem_inv mu"
  shows "sorted_wrt (\<lambda>u v. start_mu u < start_mu v) mu"
proof -
  have "sorted_wrt (\<lambda>u v. end_mu u < start_mu v) mu"
    and pos: "\<forall>u\<in>set mu. 0 < length_mu u"
    using assms by (simp_all add: mem_inv_def)
  then have "sorted_wrt (\<lambda>u v. (end_mu u < start_mu v) \<and> 0 < length_mu u) mu"
    by (induction mu) auto
  then show ?thesis
    by (rule sorted_wrt_mono_rel [rotated]) (auto simp: end_mu_def)
qed

lemma dropWhile_starts:
  assumes "sorted_wrt (\<lambda>u v. start_mu u < start_mu v) mu"
    and "v \<in> set (dropWhile (\<lambda>u. start_mu u \<le> s) mu)"
  shows "s < start_mu v"
  using assms by (induction mu) (auto split: if_splits)

text \<open>
  A candidate of positive length that intersects no unit of a sorted memory is
  inserted after the units that start at or before it, and the memory stays sorted.
\<close>

lemma add_range_disjoint:
  assumes inv: "mem_inv mu" and pos: "0 < l"
    and dis: "\<forall>u\<in>set mu. \<not> intersects (s, l) (interval_of u)"
  shows "add_range mu s l d =
           (Inr (), takeWhile (\<lambda>u. start_mu u \<le> s) mu @ [FakeMemoryUnit_init s l d]
                      @ dropWhile (\<lambda>u. start_mu u \<le> s) mu)"
    and "mem_inv (takeWhile (\<lambda>u. start_mu u \<le> s) mu @ [FakeMemoryUnit_init s l d]
                      @ dropWhile (\<lambda>u. start_mu u \<le> s) mu)"
proof -
  define n where "n = FakeMemoryUnit_init s l d"
  define P where "P = (\<lambda>u. start_mu u \<le> s)"
  define k where "k = length (takeWhile P mu)"
  have n: "start_mu n = s" "length_mu n = l" "end_mu n = s + l - 1" "unit_inv n"
    by (simp_all add: n_def init_fields unit_inv_init)
  have iv: "interval_of n = (s, l)" by (simp add: interval_of_def n)
  have units: "unit_inv u \<and> 0 < length_mu u \<and> \<not> intersects (interval_of n) (interval_of u)"
    if "u \<in> set mu" for u
    using that inv dis by (simp add: mem_inv_def iv)
  have npos: "0 < length_mu n" using pos by (simp add: n)
  have before: "end_mu u < s" if "u \<in> set (takeWhile P mu)" for u
  proof -
    have "u \<in> set mu" "start_mu u \<le> start_mu n"
      using set_takeWhileD [OF that] by (simp_all add: P_def n)
    with units [of u] npos show ?thesis using disjoint_unit(3) [of u n] by (simp add: n)
  qed
  have after: "s + l - 1 < start_mu v" if "v \<in> set (dropWhile P mu)" for v
  proof -
    have "v \<in> set mu" using that set_dropWhileD by fast
    moreover have "start_mu n < start_mu v"
      using dropWhile_starts [OF sorted_starts [OF inv], of v s] that by (simp add: P_def n)
    ultimately show ?thesis
      using units [of v] npos disjoint_unit(4) [of v n] by (simp add: n)
  qed
  have "\<forall>u\<in>set mu. \<not> contains (range_mu u) (start_mu n) \<and> \<not> contains (range_mu u) (end_mu n)"
    using units npos disjoint_unit(1,2) by blast
  then have fp: "find_position n mu 0 = Inr k"
    using find_position_disjoint [of mu n 0] by (simp add: k_def P_def n)
  have tk: "take k mu = takeWhile P mu" and dr: "drop k mu = dropWhile P mu"
    using takeWhile_eq_take [of P mu] dropWhile_eq_drop [of P mu] by (simp_all add: k_def)
  have nxt: "\<not> (k + 1 < length mu \<and> start_mu (mu ! (k + 1)) \<le> end_mu n)"
  proof
    assume a: "k + 1 < length mu \<and> start_mu (mu ! (k + 1)) \<le> end_mu n"
    then have "mu ! (k + 1) = drop k mu ! 1" by simp
    moreover have "1 < length (drop k mu)" using a by auto
    ultimately have "mu ! (k + 1) \<in> set (dropWhile P mu)"
      unfolding dr [symmetric] using nth_mem by metis
    from after [OF this] a show False by (simp add: n)
  qed
  show "add_range mu s l d = (Inr (), takeWhile (\<lambda>u. start_mu u \<le> s) mu
            @ [FakeMemoryUnit_init s l d] @ dropWhile (\<lambda>u. start_mu u \<le> s) mu)"
    using fp nxt tk dr unfolding add_range_def n_def [symmetric] P_def [symmetric]
    by (simp add: Let_def)
  have srt: "sorted_wrt (\<lambda>u v. end_mu u < start_mu v) (takeWhile P mu)"
    "sorted_wrt (\<lambda>u v. end_mu u < start_mu v) (dropWhile P mu)"
    using inv sorted_wrt_append [of "\<lambda>u v. end_mu u < start_mu v" "takeWhile P mu" "dropWhile P mu"]
    by (simp_all add: mem_inv_def)
  have across: "end_mu u < start_mu v"
    if "u \<in> set (takeWhile P mu)" "v \<in> set (dropWhile P mu)" for u v
    using before [OF that(1)] after [OF that(2)] pos by linarith
  have "sorted_wrt (\<lambda>u v. end_mu u < start_mu v) (takeWhile P mu @ [n] @ dropWhile P mu)"
    using srt before after across by (simp add: sorted_wrt_append n)
  moreover have "\<forall>u\<in>set (takeWhile P mu @ [n] @ dropWhile P mu). 0 < length_mu u \<and> unit_inv u"
  proof
    fix u assume "u \<in> set (takeWhile P mu @ [n] @ dropWhile P mu)"
    then have "u = n \<or> u \<in> set mu"
      using set_takeWhileD [of u P mu] set_dropWhileD [of u P mu] by auto
    then show "0 < length_mu u \<and> unit_inv u" using units npos n(4) by blast
  qed
  ultimately show "mem_inv (takeWhile (\<lambda>u. start_mu u \<le> s) mu @ [FakeMemoryUnit_init s l d]
                      @ dropWhile (\<lambda>u. start_mu u \<le> s) mu)"
    unfolding mem_inv_def n_def [symmetric] P_def [symmetric] by blast
qed

lemma add_ranges_disjoint:
  assumes "mem_inv mu" and "pairwise_disjoint qs" and "\<forall>p\<in>set qs. 0 < snd p"
    and "\<forall>p\<in>set qs. \<forall>u\<in>set mu. \<not> intersects p (interval_of u)"
  shows "\<exists>mu'. add_ranges mu qs = (Inr (), mu') \<and> mem_inv mu'
           \<and> mset (map interval_of mu') = mset (map interval_of mu) + mset qs"
  using assms
proof (induction qs arbitrary: mu)
  case Nil
  then show ?case by simp
next
  case (Cons q qs)
  obtain s l where q: "q = (s, l)" by (cases q)
  define mu1 where "mu1 = takeWhile (\<lambda>u. start_mu u \<le> s) mu @ [FakeMemoryUnit_init s l []]
                      @ dropWhile (\<lambda>u. start_mu u \<le> s) mu"
  have pos: "0 < l" using Cons.prems(3) by (simp add: q)
  have dis: "\<forall>u\<in>set mu. \<not> intersects (s, l) (interval_of u)"
    using Cons.prems(4) by (simp add: q)
  have step: "add_range mu s l [] = (Inr (), mu1)" and inv1: "mem_inv mu1"
    using add_range_disjoint [OF Cons.prems(1) pos dis, of "[]"] by (simp_all add: mu1_def)
  have new: "interval_of (FakeMemoryUnit_init s l []) = (s, l)"
    by (simp add: interval_of_def init_fields)
  have set1: "set mu1 = insert (FakeMemoryUnit_init s l []) (set mu)"
  proof -
    have "set mu1 = insert (FakeMemoryUnit_init s l [])
            (set (takeWhile (\<lambda>u. start_mu u \<le> s) mu @ dropWhile (\<lambda>u. start_mu u \<le> s) mu))"
      unfolding mu1_def by (simp only: set_append) auto
    then show ?thesis by simp
  qed
  have mset1: "image_mset interval_of (mset mu1)
                 = add_mset (s, l) (image_mset interval_of (mset mu))"
  proof -
    have "mset mu1 = add_mset (FakeMemoryUnit_init s l [])
            (mset (takeWhile (\<lambda>u. start_mu u \<le> s) mu @ dropWhile (\<lambda>u. start_mu u \<le> s) mu))"
      unfolding mu1_def by (simp only: mset_append) simp
    then have "mset mu1 = add_mset (FakeMemoryUnit_init s l []) (mset mu)" by simp
    then show ?thesis by (simp add: new)
  qed
  have rest: "\<forall>p\<in>set qs. \<forall>u\<in>set mu1. \<not> intersects p (interval_of u)"
  proof (intro ballI)
    fix p u assume p: "p \<in> set qs" and u: "u \<in> set mu1"
    show "\<not> intersects p (interval_of u)"
    proof (cases "u = FakeMemoryUnit_init s l []")
      case True
      have "\<not> intersects (s, l) p" using Cons.prems(2) p by (simp add: q)
      then show ?thesis by (simp add: True new intersects_sym [of p])
    next
      case False
      then have "u \<in> set mu" using u by (simp add: set1)
      then show ?thesis using Cons.prems(4) p by simp
    qed
  qed
  from Cons.IH [OF inv1 _ _ rest] Cons.prems(2,3)
  obtain mu' where "add_ranges mu1 qs = (Inr (), mu')" "mem_inv mu'"
    "mset (map interval_of mu') = mset (map interval_of mu1) + mset qs"
    by auto
  then show ?case by (simp add: q step mset1)
qed

lemma pairwise_disjoint_iff:
  assumes "\<forall>p\<in>set ps. 0 < snd p"
  shows "pairwise_disjoint ps \<longleftrightarrow>
           distinct ps \<and> (\<forall>p\<in>set ps. \<forall>q\<in>set ps. p \<noteq> q \<longrightarrow> \<not> intersects p q)"
  using assms
proof (induction ps)
  case Nil
  then show ?case by simp
next
  case (Cons a ps)
  have self: "intersects a a" using Cons.prems by (simp add: intersects_self)
  have sym: "intersects q a \<Longrightarrow> intersects a q" for q
    by (simp add: intersects_sym [of a])
  have ih: "pairwise_disjoint ps \<longleftrightarrow>
           distinct ps \<and> (\<forall>p\<in>set ps. \<forall>q\<in>set ps. p \<noteq> q \<longrightarrow> \<not> intersects p q)"
    using Cons by simp
  show ?case
  proof
    assume "pairwise_disjoint (a # ps)"
    then have d1: "\<forall>q\<in>set ps. \<not> intersects a q" and pd: "pairwise_disjoint ps"
      by simp_all
    from pd ih have dist: "distinct ps"
      and pw: "\<forall>p\<in>set ps. \<forall>q\<in>set ps. p \<noteq> q \<longrightarrow> \<not> intersects p q"
      by simp_all
    have notin: "a \<notin> set ps" using d1 self by blast
    have d2: "\<forall>q\<in>set ps. \<not> intersects q a" using d1 sym by blast
    have "\<forall>p\<in>set (a # ps). \<forall>q\<in>set (a # ps). p \<noteq> q \<longrightarrow> \<not> intersects p q"
    proof (intro ballI impI)
      fix p q assume "p \<in> set (a # ps)" "q \<in> set (a # ps)" "p \<noteq> q"
      then consider "p = a" "q \<in> set ps" | "q = a" "p \<in> set ps" | "p \<in> set ps" "q \<in> set ps"
        by auto
      then show "\<not> intersects p q"
      proof cases
        case 1 then show ?thesis using d1 by simp
      next
        case 2 then show ?thesis using d2 by simp
      next
        case 3 then show ?thesis using pw \<open>p \<noteq> q\<close> by simp
      qed
    qed
    with notin dist show "distinct (a # ps) \<and>
        (\<forall>p\<in>set (a # ps). \<forall>q\<in>set (a # ps). p \<noteq> q \<longrightarrow> \<not> intersects p q)"
      by simp
  next
    assume R: "distinct (a # ps) \<and>
        (\<forall>p\<in>set (a # ps). \<forall>q\<in>set (a # ps). p \<noteq> q \<longrightarrow> \<not> intersects p q)"
    then have notin: "a \<notin> set ps" and dist: "distinct ps" by simp_all
    from R have all: "\<And>p q. p \<in> set (a # ps) \<Longrightarrow> q \<in> set (a # ps) \<Longrightarrow> p \<noteq> q
        \<Longrightarrow> \<not> intersects p q" by blast
    have "\<forall>q\<in>set ps. \<not> intersects a q"
    proof
      fix q assume q: "q \<in> set ps"
      then have "a \<noteq> q" using notin by blast
      then show "\<not> intersects a q" using all [of a q] q by simp
    qed
    moreover have "\<forall>p\<in>set ps. \<forall>q\<in>set ps. p \<noteq> q \<longrightarrow> \<not> intersects p q"
      using all by simp
    ultimately show "pairwise_disjoint (a # ps)" using dist ih by simp
  qed
qed

lemma pairwise_disjoint_perm:
  assumes "pairwise_disjoint ps" "\<forall>p\<in>set ps. 0 < snd p" "mset qs = mset ps"
  shows "pairwise_disjoint qs \<and> (\<forall>p\<in>set qs. 0 < snd p)"
proof -
  have s: "set qs = set ps" using assms(3) by (rule mset_eq_setD)
  have d: "distinct qs = distinct ps" using assms(3) by (rule mset_eq_imp_distinct_iff)
  have q: "\<forall>p\<in>set qs. 0 < snd p" using assms(2) by (simp add: s)
  from assms(1) have "distinct ps \<and> (\<forall>p\<in>set ps. \<forall>q\<in>set ps. p \<noteq> q \<longrightarrow> \<not> intersects p q)"
    by (simp add: pairwise_disjoint_iff [OF assms(2)])
  then have "distinct qs \<and> (\<forall>p\<in>set qs. \<forall>q\<in>set qs. p \<noteq> q \<longrightarrow> \<not> intersects p q)"
    by (simp add: s d)
  then have "pairwise_disjoint qs" by (simp add: pairwise_disjoint_iff [OF q])
  with q show ?thesis by simp
qed

text \<open>
  C5. When the inclusive intervals of a list of \<open>(start, length)\<close> pairs of positive
  length are pairwise disjoint, adding the pairs to an empty memory in any order \<open>qs\<close>
  makes every \<open>add_range\<close> succeed; afterwards the units are exactly the pairs given,
  strictly ascending by start, and each unit ends before the next one starts.
\<close>

theorem add_ranges_sorted_disjoint:
  assumes "pairwise_disjoint ps" and "\<forall>p\<in>set ps. 0 < snd p" and "mset qs = mset ps"
  shows "\<exists>mu. add_ranges [] qs = (Inr (), mu)
           \<and> mset (map interval_of mu) = mset ps
           \<and> (\<forall>i. Suc i < length mu \<longrightarrow>
                 start_mu (mu ! i) < start_mu (mu ! Suc i) \<and> end_mu (mu ! i) < start_mu (mu ! Suc i))"
proof -
  have qs: "pairwise_disjoint qs" "\<forall>p\<in>set qs. 0 < snd p"
    using pairwise_disjoint_perm [OF assms] by simp_all
  have "mem_inv []" by (simp add: mem_inv_def)
  from add_ranges_disjoint [OF this qs]
  obtain mu where r: "add_ranges [] qs = (Inr (), mu)" and inv: "mem_inv mu"
    and m: "mset (map interval_of mu) = mset qs"
    by auto
  have adj: "start_mu (mu ! i) < start_mu (mu ! Suc i) \<and> end_mu (mu ! i) < start_mu (mu ! Suc i)"
    if "Suc i < length mu" for i
  proof -
    have "end_mu (mu ! i) < start_mu (mu ! Suc i)"
      using inv that sorted_wrt_nth_less [of "\<lambda>u v. end_mu u < start_mu v" mu i "Suc i"]
      by (simp add: mem_inv_def)
    moreover have "start_mu (mu ! i) < start_mu (mu ! Suc i)"
      using sorted_starts [OF inv] that
        sorted_wrt_nth_less [of "\<lambda>u v. start_mu u < start_mu v" mu i "Suc i"]
      by simp
    ultimately show ?thesis by simp
  qed
  from r m adj assms(3) show ?thesis by auto
qed

theorem add_ranges_sorted_disjoint_witness:
  "fst (add_ranges [] [(0x50, 10), (0x10, 0x10), (0x40, 10)]) = Inr ()
   \<and> map interval_of (snd (add_ranges [] [(0x50, 10), (0x10, 0x10), (0x40, 10)]))
        = [(0x10, 0x10), (0x40, 10), (0x50, 10)]"
proof -
  have pd: "pairwise_disjoint [(0x10, 0x10), (0x50, 10), (0x40, 10)]"
    by (simp add: intersects_def)
  have pos: "\<forall>p\<in>set [(0x10, 0x10), (0x50, 10), (0x40, 10 :: int)]. 0 < snd p"
    by simp
  have perm: "mset [(0x50, 10), (0x10, 0x10), (0x40, 10 :: int)]
                = mset [(0x10, 0x10), (0x50, 10), (0x40, 10 :: int)]"
    by simp
  from add_ranges_sorted_disjoint [OF pd pos perm]
  obtain mu where "add_ranges [] [(0x50, 10), (0x10, 0x10), (0x40, 10)] = (Inr (), mu)"
    by blast
  then have "fst (add_ranges [] [(0x50, 10), (0x10, 0x10), (0x40, 10)]) = Inr ()"
    by simp
  moreover have "map interval_of (snd (add_ranges [] [(0x50, 10), (0x10, 0x10), (0x40, 10)]))
        = [(0x10, 0x10), (0x40, 10), (0x50, 10)]"
    by code_simp
  ultimately show ?thesis by simp
qed

text \<open>
  C4. With \<open>no_error\<close> set, a read of the memory at an address that no unit contains is
  claimed to return zero. \<open>_read_write_method\<close> swallows the \<open>IOError\<close> of \<open>_find_mu\<close>
  and ends without a \<open>return\<close>: \<open>read\<close> and \<open>read32\<close> yield \<open>None\<close>, where the \<open>read\<close>
  of a unit yields 0. The memory is unchanged.
\<close>

theorem read_unmapped_no_error_returns_None:
  "find_mu [FakeMemoryUnit_init 0x10 4 []] 0x00 = Inl (NoSuchAddress 0x00)
   \<and> read_write_method [FakeMemoryUnit_init 0x10 4 []] Read 0x00 PyNone True
        = (Inr PyNone, [FakeMemoryUnit_init 0x10 4 []])
   \<and> read_write_method [FakeMemoryUnit_init 0x10 4 []] Read32 0x00 PyNone True
        = (Inr PyNone, [FakeMemoryUnit_init 0x10 4 []])
   \<and> read (FakeMemoryUnit_init 0x10 4 []) 0x00 True = Inr 0"
  by code_simp

section \<open>Properties of the interface\<close>

text \<open>
  C6. When the checksum of a record line is not valid, \<open>cmd_write_srec\<close> leaves the
  memory exactly as it was; it returns \<open>False\<close> whenever the line parses and its address
  field decodes (both happen before the checksum is validated, and their failures are
  raised as they are).
\<close>

theorem cmd_write_srec_bad_checksum:
  assumes "\<not> validate_srec_checksum (strip srec)"
  shows "snd (cmd_write_srec parse_srec validate_srec_checksum int16 m srec) = m
     \<and> (\<forall>rtype rlen addr dat chk a.
          parse_srec srec = Inr (rtype, rlen, addr, dat, chk) \<and> int16 addr = Inr a \<longrightarrow>
          cmd_write_srec parse_srec validate_srec_checksum int16 m srec = (Inr False, m))"
  using assms by (auto simp: cmd_write_srec_def split: sum.splits prod.splits)

theorem cmd_write_srec_bad_checksum_witness:
  "\<not> (\<lambda>s. False) (strip ''S30810000010AABBCC00'')
   \<and> cmd_write_srec
        (\<lambda>s. Inr (take 2 s, take 2 (drop 2 s), take 8 (drop 4 s), take 6 (drop 12 s), drop 18 s))
        (\<lambda>s. False) (\<lambda>s. Inr 0x10) [FakeMemoryUnit_init 0x10 4 []] ''S30810000010AABBCC00''
      = (Inr False, [FakeMemoryUnit_init 0x10 4 []])"
  using cmd_write_srec_bad_checksum [of "\<lambda>s. False" "''S30810000010AABBCC00''"
      "\<lambda>s. Inr (take 2 s, take 2 (drop 2 s), take 8 (drop 4 s), take 6 (drop 12 s), drop 18 s)"
      "\<lambda>s. Inr 0x10" "[FakeMemoryUnit_init 0x10 4 []]"]
  by simp

text \<open>
  C7. For a record that parses, whose address decodes and whose checksum is valid, and
  whose type is none of \<open>S0\<close>, \<open>S3\<close> and \<open>S7\<close>, \<open>cmd_write_srec\<close> raises
  \<open>NotImplementedError\<close> with the type in its message, and the memory, with the buffer
  of every unit, is the same after the call as before.
\<close>

theorem cmd_write_srec_unsupported_type:
  assumes "parse_srec srec = Inr (rtype, rlen, addr, dat, chk)"
    and "int16 addr = Inr a"
    and "validate_srec_checksum (strip srec)"
    and "rtype \<noteq> ''S0''" and "rtype \<noteq> ''S3''" and "rtype \<noteq> ''S7''"
  shows "cmd_write_srec parse_srec validate_srec_checksum int16 m srec
           = (Inl (UnsupportedRecordType rtype), m)"
  using assms by (simp add: cmd_write_srec_def)

theorem cmd_write_srec_unsupported_type_witness:
  "cmd_write_srec (\<lambda>s. Inr (take 2 s, take 2 (drop 2 s), take 4 (drop 4 s), [], drop 8 s))
        (\<lambda>s. True) (\<lambda>s. Inr 3) [FakeMemoryUnit_init 0x10 4 []] ''S5030003F9''
      = (Inl (UnsupportedRecordType ''S5''), [FakeMemoryUnit_init 0x10 4 []])"
  using cmd_write_srec_unsupported_type
    [of "\<lambda>s. Inr (take 2 s, take 2 (drop 2 s), take 4 (drop 4 s), [], drop 8 s)"
      "''S5030003F9''" "''S5''" "''03''" "''0003''" "[]" "''F9''" "\<lambda>s. Inr 3" 3 "\<lambda>s. True"
      "[FakeMemoryUnit_init 0x10 4 []]"]
  by simp

end
